theory Spec2Isabelle
  imports Main "HOL-Library.AList"
begin

section \<open>JavaScript values\<close>

text \<open>
  The module factory of \<^verbatim>\<open>src/library/src/factory.js\<close> works on untyped JavaScript
  values: a section of a module (state, mutations, actions, getters) is absent, a plain
  mapping, or a zero-argument factory producing a mapping. A value is modelled as the
  datatype \<open>val\<close>. An object or array carries its identity (an address) so that two
  references to one object can be told from two equal objects; the allocator is the
  next free address, passed through every function that creates an object. A function
  value is what a call of it does: it reads the allocator and either throws or returns
  a value and the allocator it leaves. The model covers the functions whose effect
  does not depend on their arguments or on \<^verbatim>\<open>this\<close>, as that of a zero-argument factory
  does not. Numbers are the finite integers; the order of integer-like keys inside an
  object is not modelled (keys are kept in insertion order).
\<close>

datatype error = TypeError | SyntaxError | ReferenceError

datatype val =
    VUndef
  | VNull
  | VBool bool
  | VNum int
  | VStr string
  | VObj nat "(string \<times> val) list"
  | VArr nat "val list"
  | VFun "nat \<Rightarrow> error + val \<times> nat"

type_synonym props = "(string \<times> val) list"

text \<open>Truthiness, as \<^verbatim>\<open>if (x)\<close>, \<^verbatim>\<open>x && y\<close> and \<^verbatim>\<open>filter((c) => c)\<close> test it.\<close>

fun truthy :: "val \<Rightarrow> bool" where
  "truthy VUndef = False"
| "truthy VNull = False"
| "truthy (VBool b) = b"
| "truthy (VNum i) = (i \<noteq> 0)"
| "truthy (VStr s) = (s \<noteq> [])"
| "truthy (VObj a ps) = True"
| "truthy (VArr a vs) = True"
| "truthy (VFun f) = True"

text \<open>
  \<^verbatim>\<open>x[key]\<close> on a value that is not undefined or null: an own property of a plain
  object, undefined otherwise (the built-in properties of arrays, strings and functions
  other than \<^verbatim>\<open>call\<close> are not modelled).
\<close>

fun get_prop :: "val \<Rightarrow> string \<Rightarrow> val" where
  "get_prop (VObj a ps) k = (case map_of ps k of Some v \<Rightarrow> v | None \<Rightarrow> VUndef)"
| "get_prop v k = VUndef"

text \<open>
  \<^verbatim>\<open>x.call\<close> as a condition: every function inherits \<^verbatim>\<open>call\<close>; a plain object
  has it only as an own property.
\<close>

fun has_call :: "val \<Rightarrow> bool" where
  "has_call (VFun f) = True"
| "has_call v = truthy (get_prop v ''call'')"

text \<open>\<^verbatim>\<open>x()\<close>: calling anything but a function throws a TypeError.\<close>

fun invoke :: "val \<Rightarrow> nat \<Rightarrow> error + val \<times> nat" where
  "invoke (VFun f) n = f n"
| "invoke v n = Inl TypeError"

text \<open>\<^verbatim>\<open>x === t\<close> for a string \<open>t\<close>, and the test for undefined or null, on which a
  property access throws.\<close>

fun strict_eq_string :: "val \<Rightarrow> string \<Rightarrow> bool" where
  "strict_eq_string (VStr s) t = (s = t)"
| "strict_eq_string v t = False"

fun nullish :: "val \<Rightarrow> bool" where
  "nullish VUndef = True"
| "nullish VNull = True"
| "nullish v = False"

text \<open>Decimal numerals, the keys of the elements of an array or a string.\<close>

fun dec :: "nat \<Rightarrow> string" where
  "dec n = (if n < 10 then [char_of (48 + n)] else dec (n div 10) @ [char_of (48 + n mod 10)])"

text \<open>
  The own enumerable properties an object spread \<^verbatim>\<open>{...x}\<close> copies: those of a plain
  object, the indexed elements of an array or a string, none of any other value.
\<close>

fun own_props :: "val \<Rightarrow> props" where
  "own_props (VObj a ps) = ps"
| "own_props (VArr a vs) = zip (map dec [0..<length vs]) vs"
| "own_props (VStr s) = zip (map dec [0..<length s]) (map (\<lambda>c. VStr [c]) s)"
| "own_props v = []"

text \<open>
  \<^verbatim>\<open>{ ...merged, ...x }\<close> allocated at address \<open>a\<close>: the properties of \<open>merged\<close>, then
  those of \<open>x\<close>, a key already there keeping its place and taking the new value.
\<close>

definition assign :: "props \<Rightarrow> props \<Rightarrow> props" where
  "assign ps qs = fold (\<lambda>(k, v). AList.update k v) qs ps"

definition spread2 :: "nat \<Rightarrow> val \<Rightarrow> val \<Rightarrow> val" where
  "spread2 a merged x = VObj a (assign (assign [] (own_props merged)) (own_props x))"

section \<open>JSON round trip\<close>

text \<open>
  \<^verbatim>\<open>JSON.parse(JSON.stringify(x))\<close>. The text in between is modelled as the tree it
  denotes.
\<close>

datatype json =
    JNull
  | JBool bool
  | JNum int
  | JStr string
  | JObj "(string \<times> json) list"
  | JArr "json list"

text \<open>
  \<^verbatim>\<open>JSON.stringify\<close> serializes a value as the property of its holder: when the value
  is an object with a callable \<^verbatim>\<open>toJSON\<close>, it calls that function and serializes what
  the call returns in place of the object (the \<^verbatim>\<open>toJSON\<close> of the returned value
  itself is not consulted); a property holding undefined or a function is left out of
  an object, and an array element holding one becomes null. A serialization reads the
  allocator, since \<^verbatim>\<open>toJSON\<close> is a call, and either throws or gives the JSON (\<open>None\<close>
  where \<^verbatim>\<open>JSON.stringify\<close> gives undefined) and the allocator it leaves.

  \<open>serialize\<close> gives, for a value, whether it is callable, its serialization without
  regard to its own \<^verbatim>\<open>toJSON\<close>, its serialization as a property, and, for a function,
  the serialization of what a call of it returns.
\<close>

type_synonym serial = "nat \<Rightarrow> error + json option \<times> nat"

record serials =
  callable :: bool
  as_value :: serial
  as_property :: serial
  when_called :: serial

definition plain_serials :: "json option \<Rightarrow> serials" where
  "plain_serials j =
     \<lparr>callable = False, as_value = (\<lambda>n. Inr (j, n)), as_property = (\<lambda>n. Inr (j, n)),
      when_called = (\<lambda>n. Inl TypeError)\<rparr>"

definition function_serials :: "(nat \<Rightarrow> error + serials \<times> nat) \<Rightarrow> serials" where
  "function_serials g =
     \<lparr>callable = True, as_value = (\<lambda>n. Inr (None, n)), as_property = (\<lambda>n. Inr (None, n)),
      when_called = (\<lambda>n. case g n of Inl e \<Rightarrow> Inl e | Inr (r, n') \<Rightarrow> as_value r n')\<rparr>"

fun members :: "(string \<times> serials) list \<Rightarrow> nat \<Rightarrow> error + (string \<times> json) list \<times> nat" where
  "members [] n = Inr ([], n)"
| "members ((k, r) # rs) n =
     (case as_property r n of
        Inl e \<Rightarrow> Inl e
      | Inr (None, n1) \<Rightarrow> members rs n1
      | Inr (Some j, n1) \<Rightarrow>
          (case members rs n1 of Inl e \<Rightarrow> Inl e | Inr (ms, n2) \<Rightarrow> Inr ((k, j) # ms, n2)))"

fun elements :: "serials list \<Rightarrow> nat \<Rightarrow> error + json list \<times> nat" where
  "elements [] n = Inr ([], n)"
| "elements (r # rs) n =
     (case as_property r n of
        Inl e \<Rightarrow> Inl e
      | Inr (j, n1) \<Rightarrow>
          (case elements rs n1 of
             Inl e \<Rightarrow> Inl e
           | Inr (js, n2) \<Rightarrow> Inr ((case j of None \<Rightarrow> JNull | Some x \<Rightarrow> x) # js, n2)))"

definition object_serials :: "(string \<times> serials) list \<Rightarrow> serials" where
  "object_serials rs =
     (let self = (\<lambda>n. case members rs n of Inl e \<Rightarrow> Inl e | Inr (ms, n') \<Rightarrow> Inr (Some (JObj ms), n'))
      in \<lparr>callable = False, as_value = self,
          as_property = (case map_of rs ''toJSON'' of
                           None \<Rightarrow> self
                         | Some r \<Rightarrow> if callable r then when_called r else self),
          when_called = (\<lambda>n. Inl TypeError)\<rparr>)"

definition array_serials :: "serials list \<Rightarrow> serials" where
  "array_serials rs =
     (let self = (\<lambda>n. case elements rs n of Inl e \<Rightarrow> Inl e | Inr (js, n') \<Rightarrow> Inr (Some (JArr js), n'))
      in \<lparr>callable = False, as_value = self, as_property = self,
          when_called = (\<lambda>n. Inl TypeError)\<rparr>)"

primrec serialize :: "val \<Rightarrow> serials" where
  "serialize VUndef = plain_serials None"
| "serialize VNull = plain_serials (Some JNull)"
| "serialize (VBool b) = plain_serials (Some (JBool b))"
| "serialize (VNum i) = plain_serials (Some (JNum i))"
| "serialize (VStr s) = plain_serials (Some (JStr s))"
| "serialize (VObj a ps) = object_serials (map (map_prod id serialize) ps)"
| "serialize (VArr a vs) = array_serials (map serialize vs)"
| "serialize (VFun f) = function_serials (\<lambda>n. map_sum id (map_prod serialize id) (f n))"

definition stringify :: "val \<Rightarrow> nat \<Rightarrow> error + json option \<times> nat" where
  "stringify x = as_property (serialize x)"

text \<open>\<^verbatim>\<open>JSON.parse\<close> builds new objects, taking their addresses from the allocator.\<close>

fun parse :: "json \<Rightarrow> nat \<Rightarrow> val \<times> nat"
  and parse_props :: "(string \<times> json) list \<Rightarrow> nat \<Rightarrow> props \<times> nat"
  and parse_items :: "json list \<Rightarrow> nat \<Rightarrow> val list \<times> nat" where
  "parse JNull n = (VNull, n)"
| "parse (JBool b) n = (VBool b, n)"
| "parse (JNum i) n = (VNum i, n)"
| "parse (JStr s) n = (VStr s, n)"
| "parse (JObj ps) n = (case parse_props ps (Suc n) of (qs, n') \<Rightarrow> (VObj n qs, n'))"
| "parse (JArr js) n = (case parse_items js (Suc n) of (vs, n') \<Rightarrow> (VArr n vs, n'))"
| "parse_props [] n = ([], n)"
| "parse_props ((k, j) # ps) n =
     (case parse j n of (v, n1) \<Rightarrow>
        (case parse_props ps n1 of (qs, n2) \<Rightarrow> ((k, v) # qs, n2)))"
| "parse_items [] n = ([], n)"
| "parse_items (j # js) n =
     (case parse j n of (v, n1) \<Rightarrow>
        (case parse_items js n1 of (vs, n2) \<Rightarrow> (v # vs, n2)))"

text \<open>\<^verbatim>\<open>JSON.parse(JSON.stringify(x))\<close>: when \<^verbatim>\<open>JSON.stringify\<close> gives undefined,
  \<^verbatim>\<open>JSON.parse\<close> throws a SyntaxError.\<close>

definition json_copy :: "val \<Rightarrow> nat \<Rightarrow> error + val \<times> nat" where
  "json_copy x n =
     (case stringify x n of
        Inl e \<Rightarrow> Inl e
      | Inr (None, n') \<Rightarrow> Inl SyntaxError
      | Inr (Some j, n') \<Rightarrow> Inr (parse j n'))"

text \<open>
  The JSON of a value none of whose objects has a \<^verbatim>\<open>toJSON\<close> function (then no call is
  made and the serialization is a function of the value alone), and the test for such
  values.
\<close>

fun json_of :: "val \<Rightarrow> json option" where
  "json_of VUndef = None"
| "json_of VNull = Some JNull"
| "json_of (VBool b) = Some (JBool b)"
| "json_of (VNum i) = Some (JNum i)"
| "json_of (VStr s) = Some (JStr s)"
| "json_of (VObj a ps) =
     Some (JObj (concat (map (\<lambda>(k, v). case json_of v of None \<Rightarrow> [] | Some j \<Rightarrow> [(k, j)]) ps)))"
| "json_of (VArr a vs) =
     Some (JArr (map (\<lambda>v. case json_of v of None \<Rightarrow> JNull | Some j \<Rightarrow> j) vs))"
| "json_of (VFun f) = None"

fun is_function :: "val \<Rightarrow> bool" where
  "is_function (VFun f) = True"
| "is_function v = False"

fun no_toJSON :: "val \<Rightarrow> bool" where
  "no_toJSON (VObj a ps) =
     (\<not> is_function (get_prop (VObj a ps) ''toJSON'') \<and> list_all (\<lambda>(k, v). no_toJSON v) ps)"
| "no_toJSON (VArr a vs) = list_all no_toJSON vs"
| "no_toJSON v = True"

text \<open>
  The identities of the objects and arrays a value reaches, the value with every
  identity erased (two values are structurally equal when their erasures are equal),
  and the values JSON represents: null, booleans, numbers, strings, and the arrays and
  plain objects made of them.
\<close>

fun addrs :: "val \<Rightarrow> nat set" where
  "addrs (VObj a ps) = insert a (\<Union> (set (map (\<lambda>(k, v). addrs v) ps)))"
| "addrs (VArr a vs) = insert a (\<Union> (set (map addrs vs)))"
| "addrs v = {}"

fun erase :: "val \<Rightarrow> val" where
  "erase (VObj a ps) = VObj 0 (map (\<lambda>(k, v). (k, erase v)) ps)"
| "erase (VArr a vs) = VArr 0 (map erase vs)"
| "erase v = v"

fun json_value :: "val \<Rightarrow> bool" where
  "json_value VUndef = False"
| "json_value (VFun f) = False"
| "json_value (VObj a ps) = list_all (\<lambda>(k, v). json_value v) ps"
| "json_value (VArr a vs) = list_all json_value vs"
| "json_value v = True"

text \<open>A factory \<^verbatim>\<open>function () { return { ... } }\<close>: every call returns a new object with
  the given properties.\<close>

definition object_factory :: "props \<Rightarrow> val" where
  "object_factory ps = VFun (\<lambda>n. Inr (VObj n ps, Suc n))"

section \<open>The field merger\<close>

text \<open>
  \<^verbatim>\<open>merge({ name, model, collections, complexTypes, user })\<close>.
  \<open>section_of frag name\<close> is the value of \<^verbatim>\<open>frag && frag[name]\<close>.
\<close>

definition section_of :: "val \<Rightarrow> string \<Rightarrow> val" where
  "section_of frag name = (if truthy frag then get_prop frag name else frag)"

definition conditions :: "string \<Rightarrow> val \<Rightarrow> val \<Rightarrow> val \<Rightarrow> val list" where
  "conditions name model collections user =
     filter truthy [section_of model name, section_of collections name, VBool (truthy user)]"

text \<open>
  One step of the merging branch, for a source \<open>src\<close> that is present:
  \<^verbatim>\<open>isFunc = isFunc || src.call; merged = src.call ? { ...merged, ...src() } : { ...merged, ...src }\<close>.
  The object literal is allocated before the factory is called.
\<close>

definition merge_source :: "val \<Rightarrow> bool \<times> val \<Rightarrow> nat \<Rightarrow> error + (bool \<times> val) \<times> nat" where
  "merge_source src acc n =
     (case acc of (isFunc, merged) \<Rightarrow>
        if has_call src then
          (case invoke src (Suc n) of
             Inl e \<Rightarrow> Inl e
           | Inr (r, n') \<Rightarrow> Inr ((True, spread2 n merged r), n'))
        else Inr ((isFunc, spread2 n merged src), Suc n))"

definition merge_if :: "val \<Rightarrow> error + (bool \<times> val) \<times> nat \<Rightarrow> error + (bool \<times> val) \<times> nat" where
  "merge_if src r =
     (case r of
        Inl e \<Rightarrow> Inl e
      | Inr (acc, n) \<Rightarrow> if truthy src then merge_source src acc n else Inr (acc, n))"

text \<open>
  The merging branch up to the test of \<^verbatim>\<open>isFunc\<close>: \<^verbatim>\<open>let merged = {}\<close>, then the
  four sources in the order user, model, collections, complexTypes.
\<close>

definition merge_all :: "string \<Rightarrow> val \<Rightarrow> val \<Rightarrow> val \<Rightarrow> val \<Rightarrow> nat \<Rightarrow> error + (bool \<times> val) \<times> nat" where
  "merge_all name model collections complexTypes user n =
     merge_if (section_of complexTypes name)
       (merge_if (section_of collections name)
          (merge_if (section_of model name)
             (merge_if user (Inr ((False, VObj n []), Suc n)))))"

definition merge :: "string \<Rightarrow> val \<Rightarrow> val \<Rightarrow> val \<Rightarrow> val \<Rightarrow> nat \<Rightarrow> error + val \<times> nat" where
  "merge name model collections complexTypes user n =
     (if length (conditions name model collections user) > 1 then
        (case merge_all name model collections complexTypes user n of
           Inl e \<Rightarrow> Inl e
         | Inr ((isFunc, merged), n') \<Rightarrow>
             if isFunc then Inr (VFun (json_copy merged), n') else Inr (merged, n'))
      else if truthy (section_of model name) then Inr (get_prop model name, n)
      else if truthy (section_of collections name) then Inr (get_prop collections name, n)
      else if truthy (section_of complexTypes name) then Inr (get_prop complexTypes name, n)
      else Inr (user, n))"

text \<open>The four sources of a call, in the order of precedence.\<close>

definition sources :: "string \<Rightarrow> val \<Rightarrow> val \<Rightarrow> val \<Rightarrow> val \<Rightarrow> val list" where
  "sources name model collections complexTypes user =
     [user, section_of model name, section_of collections name, section_of complexTypes name]"

section \<open>The state store\<close>

text \<open>
  Modelled from the spec: the external state store (section 6 of the specification:
  \<^verbatim>\<open>registerModule\<close>, \<^verbatim>\<open>unregisterModule\<close>, \<^verbatim>\<open>commit\<close>, \<^verbatim>\<open>dispatch\<close>,
  \<^verbatim>\<open>state[name]\<close>), which the page hooks call and whose code is not part of the
  repository. A module definition is the finished module as the store sees it: whether
  it is namespaced, the state a registration starts from, its mutations (reducers of
  the module's state) and the names of its actions. The state a registration starts
  from is what the definition's state function returns; a definition with a plain
  state object shares that object with the store, and for it the field stands for the
  content of the object at the time of the registration. The store holds the
  registered modules by name (registering under a name replaces what was registered
  there; the handlers of a replaced module are dropped with it), the state of each,
  and the list of the calls made to it, oldest first.
\<close>

type_synonym mutation = "props \<Rightarrow> val \<Rightarrow> props"

record module_def =
  namespaced :: bool
  state :: props
  mutations :: "(string \<times> mutation) list"
  actions :: "string list"

datatype event =
    Register string
  | Unregister string
  | Commit string val
  | Dispatch string props
  | ClearTimeout val
  | Resolve
  | Called string

record store =
  modules :: "(string \<times> module_def) list"
  rootState :: "(string \<times> props) list"
  calls :: "event list"

definition path_of :: "string \<Rightarrow> module_def \<Rightarrow> string \<Rightarrow> string" where
  "path_of n m k = (if namespaced m then n @ ''/'' @ k else k)"

text \<open>\<^verbatim>\<open>store._mutations[path]\<close>: the handlers registered under a path, each with the
  name of the module whose state it reduces.\<close>

definition store_mutations :: "store \<Rightarrow> string \<Rightarrow> (string \<times> mutation) list" where
  "store_mutations s path =
     concat (map (\<lambda>(n, m). map (\<lambda>(k, h). (n, h))
                                (filter (\<lambda>(k, h). path_of n m k = path) (mutations m)))
                 (modules s))"

definition store_actions :: "store \<Rightarrow> string list" where
  "store_actions s = concat (map (\<lambda>(n, m). map (path_of n m) (actions m)) (modules s))"

definition registerModule :: "string \<Rightarrow> module_def \<Rightarrow> store \<Rightarrow> store" where
  "registerModule n m s =
     s\<lparr>modules := AList.update n m (modules s),
       rootState := AList.update n (state m) (rootState s),
       calls := calls s @ [Register n]\<rparr>"

definition unregisterModule :: "string \<Rightarrow> store \<Rightarrow> store" where
  "unregisterModule n s =
     s\<lparr>modules := AList.delete n (modules s),
       rootState := AList.delete n (rootState s),
       calls := calls s @ [Unregister n]\<rparr>"

definition run_handler :: "val \<Rightarrow> string \<times> mutation \<Rightarrow> (string \<times> props) list \<Rightarrow> (string \<times> props) list" where
  "run_handler payload nh rs =
     (case nh of (n, h) \<Rightarrow>
        (case map_of rs n of Some ps \<Rightarrow> AList.update n (h ps payload) rs | None \<Rightarrow> rs))"

text \<open>A commit runs every handler registered under the path; under an unknown path it
  changes nothing.\<close>

definition commit :: "string \<Rightarrow> val \<Rightarrow> store \<Rightarrow> store" where
  "commit path payload s =
     s\<lparr>rootState := fold (run_handler payload) (store_mutations s path) (rootState s),
       calls := calls s @ [Commit path payload]\<rparr>"

text \<open>\<^verbatim>\<open>(store.state[moduleName] || {})[field]\<close>\<close>

definition state_field :: "store \<Rightarrow> string \<Rightarrow> string \<Rightarrow> val" where
  "state_field s n field =
     (case map_of (rootState s) n of
        None \<Rightarrow> VUndef
      | Some ps \<Rightarrow> (case map_of ps field of Some v \<Rightarrow> v | None \<Rightarrow> VUndef))"

text \<open>How many modules are registered under a name.\<close>

definition instances :: "store \<Rightarrow> string \<Rightarrow> nat" where
  "instances s n = length (filter (\<lambda>nm. fst nm = n) (modules s))"

section \<open>The page: liveness probe and lifecycle hooks\<close>

definition validationField :: string where
  "validationField = ''@@''"

definition fetchedField :: string where
  "fetchedField = ''@tmu_fetch''"

text \<open>
  The mutation \<^verbatim>\<open>preperValidation\<close> generates for a field:
  \<^verbatim>\<open>function (state, value) { state[field] = value; }\<close>.
\<close>

definition set_field :: "string \<Rightarrow> mutation" where
  "set_field field ps v = AList.update field v ps"

text \<open>
  \<^verbatim>\<open>checkModule({ store, success, failure })\<close> of a page made for \<open>storeModule\<close> and
  \<open>moduleName\<close>. \<open>comb\<close> is the token \<^verbatim>\<open>uuid.comb()\<close> returns in this call. A callback
  is a function on the store, or \<open>None\<close> when the caller passes none.
\<close>

definition callback :: "(store \<Rightarrow> store) option \<Rightarrow> store \<Rightarrow> store" where
  "callback f s = (case f of Some g \<Rightarrow> g s | None \<Rightarrow> s)"

definition checkModule ::
  "module_def \<Rightarrow> string \<Rightarrow> string \<Rightarrow> (store \<Rightarrow> store) option \<Rightarrow> (store \<Rightarrow> store) option \<Rightarrow> store \<Rightarrow> store" where
  "checkModule storeModule moduleName comb success failure store =
     (if map_of (mutations storeModule) validationField \<noteq> None then
        (let mutationName = moduleName @ ''/'' @ validationField in
         if map_of (rootState store) moduleName \<noteq> None \<and> store_mutations store mutationName \<noteq> [] then
           (let store1 = commit mutationName (VStr comb) store;
                value = state_field store1 moduleName validationField
            in if strict_eq_string value comb then callback success store1 else callback failure store1)
         else callback failure store)
      else store)"

text \<open>
  When the probe succeeds: the page's module has the validation mutation, a module is
  registered under the name with a handler under the validation path, and the field
  read back after the commit is the token.
\<close>

definition probe_succeeds :: "module_def \<Rightarrow> string \<Rightarrow> string \<Rightarrow> store \<Rightarrow> bool" where
  "probe_succeeds storeModule moduleName comb store =
     (map_of (mutations storeModule) validationField \<noteq> None
      \<and> map_of (rootState store) moduleName \<noteq> None
      \<and> store_mutations store (moduleName @ ''/'' @ validationField) \<noteq> []
      \<and> strict_eq_string
            (state_field (commit (moduleName @ ''/'' @ validationField) (VStr comb) store)
               moduleName validationField) comb)"

text \<open>
  What a hook hands to its caller: a value, a promise (settled later, as fulfilled or
  rejected), or an exception. What a promise settles to is decided by the action or
  hook behind it, which is outside the model.
\<close>

datatype settled = Fulfilled val | Rejected val | Raised error

datatype completion = Return val | ReturnPromise settled | Throw error

text \<open>
  \<^verbatim>\<open>page.preFetch(context)\<close> up to its return: the probe (which unregisters on
  success), the registration, the read of the fetch flag, and the dispatch of
  \<^verbatim>\<open>initialize\<close>. The promise chain built on the dispatch is not returned. The result
  is the completion, the store as the hook leaves it, and the value \<^verbatim>\<open>fetched\<close> the
  chain's callbacks keep.
\<close>

definition preFetch ::
  "module_def \<Rightarrow> string \<Rightarrow> string \<Rightarrow> val \<Rightarrow> val \<Rightarrow> val \<Rightarrow> store \<Rightarrow> completion \<times> store \<times> val" where
  "preFetch storeModule moduleName comb currentRoute previousRoute redirect store =
     (let store1 = checkModule storeModule moduleName comb (Some (unregisterModule moduleName)) None store;
          store2 = registerModule moduleName storeModule store1;
          fetched = state_field store2 moduleName fetchedField
      in if map_of (rootState store2) moduleName = None \<or> nullish fetched then
           (Throw TypeError, store2, fetched)
         else
           (let store3 = (if truthy (get_prop fetched ''timeout'')
                          then store2\<lparr>calls := calls store2 @ [ClearTimeout (get_prop fetched ''timeout'')]\<rparr>
                          else store2);
                path = moduleName @ ''/initialize'';
                store4 = store3\<lparr>calls := calls store3 @
                           [Dispatch path [(''route'', currentRoute), (''from'', previousRoute), (''next'', redirect)]]\<rparr>
            in if path \<in> set (store_actions store3) then (Return VUndef, store4, fetched)
               else (Throw TypeError, store4, fetched)))"

text \<open>
  The two callbacks chained on the promise of the dispatch, run when it has settled as
  \<open>outcome\<close>, on the store as it is then. \<open>user_preFetch\<close> is the page's own
  \<^verbatim>\<open>preFetch\<close>, if it has one. The result is what the chain settles to, a promise no
  one holds.
\<close>

definition preFetch_then1 :: "(store \<Rightarrow> settled \<times> store) option \<Rightarrow> settled \<Rightarrow> store \<Rightarrow> settled \<times> store" where
  "preFetch_then1 user_preFetch outcome store =
     (case outcome of
        Fulfilled v \<Rightarrow> (case user_preFetch of Some h \<Rightarrow> h store | None \<Rightarrow> (Fulfilled VUndef, store))
      | Rejected e \<Rightarrow> (Rejected e, store)
      | Raised e \<Rightarrow> (Raised e, store))"

definition preFetch_then2 :: "string \<Rightarrow> val \<Rightarrow> settled \<Rightarrow> store \<Rightarrow> settled \<times> store" where
  "preFetch_then2 moduleName fetched outcome store =
     (case outcome of
        Fulfilled v \<Rightarrow>
          (if truthy (get_prop fetched ''resolve'') then
             (case get_prop fetched ''resolve'' of
                VFun f \<Rightarrow>
                  (Fulfilled VUndef,
                   commit (moduleName @ ''/'' @ fetchedField) (VBool True)
                     (store\<lparr>calls := calls store @ [Resolve]\<rparr>))
              | _ \<Rightarrow> (Raised TypeError, store))
           else (Fulfilled VUndef, commit (moduleName @ ''/'' @ fetchedField) (VBool True) store))
      | Rejected e \<Rightarrow> (Rejected e, store)
      | Raised e \<Rightarrow> (Raised e, store))"

definition preFetch_settled ::
  "string \<Rightarrow> (store \<Rightarrow> settled \<times> store) option \<Rightarrow> val \<Rightarrow> settled \<Rightarrow> store \<Rightarrow> settled \<times> store" where
  "preFetch_settled moduleName user_preFetch fetched outcome store =
     (case preFetch_then1 user_preFetch outcome store of
        (outcome1, store1) \<Rightarrow> preFetch_then2 moduleName fetched outcome1 store1)"

text \<open>\<^verbatim>\<open>page.mounted()\<close> and \<^verbatim>\<open>page.destroyed()\<close>, with the page's own hooks if any.\<close>

definition mounted :: "string \<Rightarrow> (store \<Rightarrow> store) option \<Rightarrow> store \<Rightarrow> store" where
  "mounted moduleName user_mounted store =
     callback user_mounted (commit (moduleName @ ''/'' @ fetchedField) (VBool False) store)"

definition destroyed ::
  "module_def \<Rightarrow> string \<Rightarrow> (store \<Rightarrow> store) option \<Rightarrow> string \<Rightarrow> store \<Rightarrow> store" where
  "destroyed storeModule moduleName user_destroyed comb store =
     checkModule storeModule moduleName comb (Some (unregisterModule moduleName)) None
       (callback user_destroyed store)"

section \<open>The getters and actions a page exposes for its collections\<close>

text \<open>
  The block of \<^verbatim>\<open>page.setup\<close> that fills \<^verbatim>\<open>getters\<close> and \<^verbatim>\<open>actions\<close> from
  \<^verbatim>\<open>options.collections\<close>. A collection descriptor has its singular and plural names,
  its two optional prefixes, and, when it has a \<^verbatim>\<open>type\<close>, the keys of an instance of it
  (\<^verbatim>\<open>Object.keys(new collection.type())\<close>). The casing helper \<^verbatim>\<open>getCases\<close> and the
  default prefixes of \<^verbatim>\<open>getCollectionPrefixes\<close> live in other files: \<open>pascal\<close> and
  \<open>camel\<close> stand for \<^verbatim>\<open>getCases(s).pascal\<close> and \<^verbatim>\<open>getCases(s).camel\<close>,
  \<open>defaultPrefixes\<close> for the pair of default prefixes.

  The block calls \<^verbatim>\<open>computed(...)\<close> twice in every turn of its loop, before the
  per-property actions; \<^verbatim>\<open>factory.js\<close> neither imports nor declares \<^verbatim>\<open>computed\<close> (the
  only declaration is a local of \<^verbatim>\<open>component\<close>), so the identifier is looked up in the
  global scope and the call throws a ReferenceError when it is not bound there.
  \<open>computed_bound\<close> says whether the global scope binds it.
\<close>

record collection =
  single :: string
  plural :: string
  type_keys :: "string list option"
  upsertPrefix :: "string option"
  deletePrefix :: "string option"

text \<open>\<^verbatim>\<open>s.match(/^[aeiou].*/i)\<close> as a condition.\<close>

definition starts_with_vowel :: "string \<Rightarrow> bool" where
  "starts_with_vowel s = (case s of [] \<Rightarrow> False | c # cs \<Rightarrow> c \<in> set ''aeiouAEIOU'')"

definition actionName :: "(string \<Rightarrow> string) \<Rightarrow> string \<Rightarrow> string \<Rightarrow> string" where
  "actionName pascal property single_name =
     (let conjunction = (if starts_with_vowel (pascal single_name) then ''An'' else ''A'')
      in ''set'' @ pascal property @ ''Of'' @ conjunction @ pascal single_name)"

text \<open>\<^verbatim>\<open>collection.upsertPrefix || defaultPrefixes.upsertPrefix\<close>\<close>

definition prefix_or :: "string option \<Rightarrow> string \<Rightarrow> string" where
  "prefix_or p d = (case p of None \<Rightarrow> d | Some s \<Rightarrow> if s = [] then d else s)"

text \<open>
  One turn of the loop over the collections, on the keys assigned so far in
  \<^verbatim>\<open>getters\<close> and \<^verbatim>\<open>actions\<close>: the two prefixed actions, the two \<^verbatim>\<open>computed\<close> getters,
  then one action for each property of the item type.
\<close>

definition collection_turn ::
  "(string \<Rightarrow> string) \<Rightarrow> (string \<Rightarrow> string) \<Rightarrow> string \<times> string \<Rightarrow> bool \<Rightarrow> collection
     \<Rightarrow> string list \<times> string list \<Rightarrow> error + string list \<times> string list" where
  "collection_turn pascal camel defaultPrefixes computed_bound c acc =
     (case acc of (getter_keys, action_keys) \<Rightarrow>
        (let actions1 = action_keys @
               [prefix_or (upsertPrefix c) (fst defaultPrefixes) @ pascal (single c),
                prefix_or (deletePrefix c) (snd defaultPrefixes) @ pascal (single c)]
         in if \<not> computed_bound then Inl ReferenceError
            else
              (let getters1 = getter_keys @ [camel (plural c) @ ''Index'', camel (single c) @ ''ById''];
                   actions2 =
                     (case type_keys c of
                        None \<Rightarrow> actions1
                      | Some properties \<Rightarrow>
                          actions1 @ map (\<lambda>property. actionName pascal property (single c)) properties)
               in Inr (getters1, actions2))))"

fun collection_loop ::
  "(string \<Rightarrow> string) \<Rightarrow> (string \<Rightarrow> string) \<Rightarrow> string \<times> string \<Rightarrow> bool \<Rightarrow> collection list
     \<Rightarrow> string list \<times> string list \<Rightarrow> error + string list \<times> string list" where
  "collection_loop pascal camel defaultPrefixes computed_bound [] acc = Inr acc"
| "collection_loop pascal camel defaultPrefixes computed_bound (c # cs) acc =
     (case collection_turn pascal camel defaultPrefixes computed_bound c acc of
        Inl e \<Rightarrow> Inl e
      | Inr acc' \<Rightarrow> collection_loop pascal camel defaultPrefixes computed_bound cs acc')"

text \<open>The whole block: the keys of \<^verbatim>\<open>getters\<close> and of \<^verbatim>\<open>actions\<close> it ends with, or the
  exception it throws.\<close>

definition setup_collections ::
  "(string \<Rightarrow> string) \<Rightarrow> (string \<Rightarrow> string) \<Rightarrow> string \<times> string \<Rightarrow> bool \<Rightarrow> collection list
     \<Rightarrow> error + string list \<times> string list" where
  "setup_collections pascal camel defaultPrefixes computed_bound collections =
     collection_loop pascal camel defaultPrefixes computed_bound collections
       ([], if list_ex (\<lambda>c. type_keys c \<noteq> None) collections
            then [''setPropertyOfACollectionItem''] else [])"

text \<open>
  Modelled from the spec: the forms \<^verbatim>\<open>getCases\<close> gives for an identifier of one
  lower-case word (\<^verbatim>\<open>_common.js\<close> is not among the sources): in PascalCase the word
  with its first letter in upper case, in camelCase the word itself.
\<close>

definition upper :: "char \<Rightarrow> char" where
  "upper c = (case map_of (zip ''abcdefghijklmnopqrstuvwxyz'' ''ABCDEFGHIJKLMNOPQRSTUVWXYZ'') c of
                Some d \<Rightarrow> d | None \<Rightarrow> c)"

definition capitalize :: "string \<Rightarrow> string" where
  "capitalize s = (case s of [] \<Rightarrow> [] | c # cs \<Rightarrow> upper c # cs)"

definition same_word :: "string \<Rightarrow> string" where
  "same_word s = s"

definition apple :: collection where
  "apple = \<lparr>single = ''apple'', plural = ''apples'', type_keys = Some [''size'', ''color''],
            upsertPrefix = None, deletePrefix = None\<rparr>"

definition job :: collection where
  "job = \<lparr>single = ''job'', plural = ''jobs'', type_keys = Some [''size''],
          upsertPrefix = None, deletePrefix = None\<rparr>"

section \<open>Example modules and stores\<close>

text \<open>
  The module \<^verbatim>\<open>store({ state: () => ({}) })\<close> builds: namespaced, with a state function
  that returns the validation field and the fetch flag, their two generated mutations,
  and the default \<^verbatim>\<open>initialize\<close> action.
\<close>

definition minimal_module :: module_def where
  "minimal_module =
     \<lparr>namespaced = True,
      state = [(validationField, VNum 0), (fetchedField, VBool False)],
      mutations = [(validationField, set_field validationField),
                   (fetchedField, set_field fetchedField)],
      actions = [''initialize'']\<rparr>"

text \<open>A module written by hand, without the validation mutation, and one whose
  validation mutation does not store the token.\<close>

definition bare_module :: module_def where
  "bare_module = \<lparr>namespaced = True, state = [], mutations = [], actions = []\<rparr>"

definition foreign_module :: module_def where
  "foreign_module =
     \<lparr>namespaced = True,
      state = [(validationField, VNum 0), (fetchedField, VBool False)],
      mutations = [(validationField, (\<lambda>ps v. ps))],
      actions = [''initialize'']\<rparr>"

definition empty_store :: store where
  "empty_store = \<lparr>modules = [], rootState = [], calls = []\<rparr>"

text \<open>A callback that records that it ran.\<close>

definition mark :: "string \<Rightarrow> store \<Rightarrow> store" where
  "mark tag s = s\<lparr>calls := calls s @ [Called tag]\<rparr>"

section \<open>Properties of the field merger\<close>

lemma section_of_truthy: "truthy (section_of frag name) \<Longrightarrow> section_of frag name = get_prop frag name"
  by (simp add: section_of_def split: if_splits)

text \<open>
  The example of the specification: \<^verbatim>\<open>user = {a:1}\<close>, \<^verbatim>\<open>model = {a:2, b:2}\<close>,
  \<^verbatim>\<open>collections = {a:3, c:3}\<close> for the section \<^verbatim>\<open>state\<close> merge to \<^verbatim>\<open>{a:3, b:2, c:3}\<close>.
\<close>

lemma merge_precedence_example:
  "merge ''state''
     (VObj 1 [(''state'', VObj 2 [(''a'', VNum 2), (''b'', VNum 2)])])
     (VObj 3 [(''state'', VObj 4 [(''a'', VNum 3), (''c'', VNum 3)])])
     VUndef
     (VObj 5 [(''a'', VNum 1)]) 10
   = Inr (VObj 13 [(''a'', VNum 3), (''b'', VNum 2), (''c'', VNum 3)], 14)"
  by (simp add: merge_def conditions_def section_of_def merge_all_def merge_if_def
      merge_source_def spread2_def assign_def)

text \<open>
  Claim C1 (merging of every combination of two or more present sources), at the pair
  user and complexTypes: \<^verbatim>\<open>conditions\<close> counts model, collections and user only, so
  with \<^verbatim>\<open>user = {a:1}\<close> and \<^verbatim>\<open>complexTypes = {state: {b:2}}\<close> its length is 1, the
  merging branch is not taken, and the call returns the complexTypes section alone:
  the key \<^verbatim>\<open>a\<close> of user is not in the result.
\<close>

theorem merge_user_complexTypes_returns_complexTypes:
  "merge ''state'' VUndef VUndef
     (VObj 3 [(''state'', VObj 4 [(''b'', VNum 2)])])
     (VObj 5 [(''a'', VNum 1)]) 10
   = Inr (VObj 4 [(''b'', VNum 2)], 10)"
  by (simp add: merge_def conditions_def section_of_def)

text \<open>
  Claim C2 (identity on at most one present source): when at most one of the four
  sources user, model[name], collections[name], complexTypes[name] is present, merge
  returns user if none is, and the present one otherwise; the value returned is the
  source itself, a plain mapping or a factory as it was, and nothing is allocated.
\<close>

theorem merge_identity_on_single_source:
  assumes "length (filter truthy (sources name model collections complexTypes user)) \<le> 1"
  shows "merge name model collections complexTypes user n =
     Inr (case filter truthy (sources name model collections complexTypes user) of
            [] \<Rightarrow> user | s # _ \<Rightarrow> s, n)"
  using assms section_of_truthy [of model name] section_of_truthy [of collections name]
    section_of_truthy [of complexTypes name]
  by (cases "truthy user"; cases "truthy (section_of model name)";
      cases "truthy (section_of collections name)"; cases "truthy (section_of complexTypes name)")
     (simp_all add: merge_def conditions_def sources_def)

theorem merge_identity_on_single_source_witness:
  "length (filter truthy (sources ''state'' (VObj 1 [(''state'', VFun (\<lambda>n. Inr (VObj n [], Suc n)))])
       VUndef VUndef VUndef)) \<le> 1
   \<and> merge ''state'' (VObj 1 [(''state'', VFun (\<lambda>n. Inr (VObj n [], Suc n)))]) VUndef VUndef VUndef 7
       = Inr (VFun (\<lambda>n. Inr (VObj n [], Suc n)), 7)"
  using merge_identity_on_single_source
    [of "''state''" "VObj 1 [(''state'', VFun (\<lambda>n. Inr (VObj n [], Suc n)))]" VUndef VUndef VUndef 7]
  by (simp add: sources_def section_of_def)

section \<open>Properties of the JSON round trip\<close>

text \<open>\<open>parse\<close> takes every identity from the allocator, and the JSON of what it builds is
  the tree it was built from.\<close>

lemma parse_alloc:
  "n \<le> snd (parse j n) \<and> (\<forall>a \<in> addrs (fst (parse j n)). n \<le> a \<and> a < snd (parse j n))"
  "n \<le> snd (parse_props ps n) \<and>
     (\<forall>kv \<in> set (fst (parse_props ps n)). \<forall>a \<in> addrs (snd kv). n \<le> a \<and> a < snd (parse_props ps n))"
  "n \<le> snd (parse_items js n) \<and>
     (\<forall>v \<in> set (fst (parse_items js n)). \<forall>a \<in> addrs v. n \<le> a \<and> a < snd (parse_items js n))"
proof (induction j n and ps n and js n rule: parse_parse_props_parse_items.induct)
  case (5 ps n)
  then show ?case by (fastforce split: prod.splits)
next
  case (6 js n)
  then show ?case by (fastforce split: prod.splits)
next
  case (8 k j ps n)
  then show ?case by (fastforce split: prod.splits)
next
  case (10 j js n)
  then show ?case by (fastforce split: prod.splits)
qed simp_all

lemma json_of_parse:
  "json_of (fst (parse j n)) = Some j"
  "concat (map (\<lambda>(k, v). case json_of v of None \<Rightarrow> [] | Some j \<Rightarrow> [(k, j)]) (fst (parse_props ps n))) = ps"
  "map (\<lambda>v. case json_of v of None \<Rightarrow> JNull | Some j \<Rightarrow> j) (fst (parse_items js n)) = js"
  by (induction j n and ps n and js n rule: parse_parse_props_parse_items.induct)
     (auto split: prod.splits)


text \<open>On a value JSON represents, the round trip changes the identities only.\<close>

lemma json_value_json_of: "json_value v \<Longrightarrow> \<exists>j. json_of v = Some j"
  by (cases v) simp_all

lemma erase_parse_props:
  assumes "\<forall>kv \<in> set ps. json_value (snd kv) \<and>
             (\<forall>j n. json_of (snd kv) = Some j \<longrightarrow> erase (fst (parse j n)) = erase (snd kv))"
  shows "map (\<lambda>(k, v). (k, erase v))
           (fst (parse_props
              (concat (map (\<lambda>(k, v). case json_of v of None \<Rightarrow> [] | Some j \<Rightarrow> [(k, j)]) ps)) n))
         = map (\<lambda>(k, v). (k, erase v)) ps"
  using assms
proof (induction ps arbitrary: n)
  case Nil
  then show ?case by simp
next
  case (Cons p ps)
  obtain k v where p: "p = (k, v)" by (cases p)
  from Cons.prems p obtain j where j: "json_of v = Some j"
    using json_value_json_of [of v] by auto
  from Cons.prems p j have e: "erase (fst (parse j n)) = erase v" by auto
  from Cons.prems have rest: "\<forall>kv \<in> set ps. json_value (snd kv) \<and>
      (\<forall>j n. json_of (snd kv) = Some j \<longrightarrow> erase (fst (parse j n)) = erase (snd kv))"
    by simp
  show ?case
    using Cons.IH [OF rest, of "snd (parse j n)"] p j e
    by (simp add: case_prod_beta)
qed

lemma erase_parse_items:
  assumes "\<forall>v \<in> set vs. json_value v \<and>
             (\<forall>j n. json_of v = Some j \<longrightarrow> erase (fst (parse j n)) = erase v)"
  shows "map erase
           (fst (parse_items (map (\<lambda>v. case json_of v of None \<Rightarrow> JNull | Some j \<Rightarrow> j) vs) n))
         = map erase vs"
  using assms
proof (induction vs arbitrary: n)
  case Nil
  then show ?case by simp
next
  case (Cons v vs)
  from Cons.prems obtain j where j: "json_of v = Some j"
    using json_value_json_of [of v] by auto
  from Cons.prems j have e: "erase (fst (parse j n)) = erase v" by auto
  from Cons.prems have rest: "\<forall>v \<in> set vs. json_value v \<and>
      (\<forall>j n. json_of v = Some j \<longrightarrow> erase (fst (parse j n)) = erase v)"
    by simp
  show ?case
    using Cons.IH [OF rest, of "snd (parse j n)"] j e
    by (simp add: case_prod_beta)
qed

lemma erase_parse:
  "json_value v \<Longrightarrow> json_of v = Some j \<Longrightarrow> erase (fst (parse j n)) = erase v"
proof (induction v arbitrary: j n rule: json_of.induct)
  case (6 a ps)
  have "\<forall>kv \<in> set ps. json_value (snd kv) \<and>
          (\<forall>j n. json_of (snd kv) = Some j \<longrightarrow> erase (fst (parse j n)) = erase (snd kv))"
  proof
    fix kv assume m: "kv \<in> set ps"
    obtain k v where kv: "kv = (k, v)" by (cases kv)
    from "6.prems"(1) m kv have jv: "json_value v" by (auto simp add: list_all_iff)
    from "6.IH" [OF m kv [symmetric] jv] jv kv
    show "json_value (snd kv) \<and>
          (\<forall>j n. json_of (snd kv) = Some j \<longrightarrow> erase (fst (parse j n)) = erase (snd kv))"
      by simp
  qed
  from erase_parse_props [OF this, of "Suc n"] "6.prems"(2) show ?case
    by (auto simp add: case_prod_beta)
next
  case (7 a vs)
  have "\<forall>v \<in> set vs. json_value v \<and>
          (\<forall>j n. json_of v = Some j \<longrightarrow> erase (fst (parse j n)) = erase v)"
  proof
    fix v assume m: "v \<in> set vs"
    from "7.prems"(1) m have jv: "json_value v" by (auto simp add: list_all_iff)
    from "7.IH" [OF m jv] jv
    show "json_value v \<and> (\<forall>j n. json_of v = Some j \<longrightarrow> erase (fst (parse j n)) = erase v)"
      by simp
  qed
  from erase_parse_items [OF this, of "Suc n"] "7.prems"(2) show ?case
    by (auto simp add: case_prod_beta)
qed auto


lemma merge_if_Inr:
  assumes "merge_if src r = Inr ((b, merged), n1)"
  shows "\<exists>b0 m0 n0. r = Inr ((b0, m0), n0) \<and> b = (b0 \<or> truthy src \<and> has_call src)
           \<and> ((\<exists>a ps. m0 = VObj a ps) \<longrightarrow> (\<exists>a ps. merged = VObj a ps))"
  using assms
  by (auto simp add: merge_if_def merge_source_def spread2_def
      split: sum.splits prod.splits if_splits)

lemma merge_all_Inr:
  assumes "merge_all name model collections complexTypes user n = Inr ((b, merged), n1)"
  shows "b = (\<exists>s \<in> set (sources name model collections complexTypes user). truthy s \<and> has_call s)
         \<and> (\<exists>a ps. merged = VObj a ps)"
proof -
  from assms [unfolded merge_all_def] merge_if_Inr
  obtain b3 m3 n3 where
    s4: "merge_if (section_of collections name)
          (merge_if (section_of model name) (merge_if user (Inr ((False, VObj n []), Suc n))))
         = Inr ((b3, m3), n3)"
    and b4: "b = (b3 \<or> truthy (section_of complexTypes name) \<and> has_call (section_of complexTypes name))"
    and o4: "(\<exists>a ps. m3 = VObj a ps) \<longrightarrow> (\<exists>a ps. merged = VObj a ps)"
    by blast
  from s4 merge_if_Inr
  obtain b2 m2 n2 where
    s3: "merge_if (section_of model name) (merge_if user (Inr ((False, VObj n []), Suc n)))
         = Inr ((b2, m2), n2)"
    and b3: "b3 = (b2 \<or> truthy (section_of collections name) \<and> has_call (section_of collections name))"
    and o3: "(\<exists>a ps. m2 = VObj a ps) \<longrightarrow> (\<exists>a ps. m3 = VObj a ps)"
    by blast
  from s3 merge_if_Inr
  obtain b1 m1 n1' where
    s2: "merge_if user (Inr ((False, VObj n []), Suc n)) = Inr ((b1, m1), n1')"
    and b2: "b2 = (b1 \<or> truthy (section_of model name) \<and> has_call (section_of model name))"
    and o2: "(\<exists>a ps. m1 = VObj a ps) \<longrightarrow> (\<exists>a ps. m2 = VObj a ps)"
    by blast
  from s2 merge_if_Inr [of user "Inr ((False, VObj n []), Suc n)" b1 m1 n1']
  have b1: "b1 = (truthy user \<and> has_call user)" and o1: "\<exists>a ps. m1 = VObj a ps"
    by auto
  from b1 b2 b3 b4 o1 o2 o3 o4 show ?thesis
    by (auto simp add: sources_def)
qed

text \<open>Without a \<^verbatim>\<open>toJSON\<close> function in the value, the serialization makes no call: it
  gives the JSON of the value and leaves the allocator as it is.\<close>

lemma callable_serialize: "callable (serialize v) = is_function v"
  by (cases v) (simp_all add: plain_serials_def function_serials_def object_serials_def
      array_serials_def Let_def)

lemma map_of_map_values:
  "map_of (map (map_prod id f) ps) k = map_option f (map_of ps k)"
  by (induction ps) auto

lemma members_no_toJSON:
  assumes "\<forall>kv \<in> set ps. \<forall>n. as_property (serialize (snd kv)) n = Inr (json_of (snd kv), n)"
  shows "members (map (map_prod id serialize) ps) n =
     Inr (concat (map (\<lambda>(k, v). case json_of v of None \<Rightarrow> [] | Some j \<Rightarrow> [(k, j)]) ps), n)"
  using assms
proof (induction ps arbitrary: n)
  case Nil
  then show ?case by simp
next
  case (Cons p ps)
  obtain k v where p: "p = (k, v)" by (cases p)
  from Cons.prems p have v: "as_property (serialize v) n = Inr (json_of v, n)" by simp
  from Cons.prems have
    "\<forall>kv \<in> set ps. \<forall>n. as_property (serialize (snd kv)) n = Inr (json_of (snd kv), n)"
    by simp
  from Cons.IH [OF this, of n] p v show ?case
    by (cases "json_of v") simp_all
qed

lemma elements_no_toJSON:
  assumes "\<forall>v \<in> set vs. \<forall>n. as_property (serialize v) n = Inr (json_of v, n)"
  shows "elements (map serialize vs) n =
     Inr (map (\<lambda>v. case json_of v of None \<Rightarrow> JNull | Some j \<Rightarrow> j) vs, n)"
  using assms
proof (induction vs arbitrary: n)
  case Nil
  then show ?case by simp
next
  case (Cons v vs)
  from Cons.prems have v: "as_property (serialize v) n = Inr (json_of v, n)" by simp
  from Cons.prems have "\<forall>v \<in> set vs. \<forall>n. as_property (serialize v) n = Inr (json_of v, n)"
    by simp
  from Cons.IH [OF this, of n] v show ?case by simp
qed

lemma stringify_no_toJSON: "no_toJSON v \<Longrightarrow> stringify v n = Inr (json_of v, n)"
proof (induction v arbitrary: n rule: json_of.induct)
  case (6 a ps)
  have "\<forall>kv \<in> set ps. \<forall>n. as_property (serialize (snd kv)) n = Inr (json_of (snd kv), n)"
  proof (intro ballI allI)
    fix kv n assume m: "kv \<in> set ps"
    obtain k v where kv: "kv = (k, v)" by (cases kv)
    from "6.prems" m kv have "no_toJSON v" by (auto simp add: list_all_iff)
    from "6.IH" [OF m kv [symmetric] this, of n] kv
    show "as_property (serialize (snd kv)) n = Inr (json_of (snd kv), n)"
      by (simp add: stringify_def)
  qed
  from members_no_toJSON [OF this] have
    m: "\<And>n. members (map (map_prod id serialize) ps) n =
      Inr (concat (map (\<lambda>(k, v). case json_of v of None \<Rightarrow> [] | Some j \<Rightarrow> [(k, j)]) ps), n)" .
  from "6.prems" have "\<not> is_function (get_prop (VObj a ps) ''toJSON'')" by simp
  then have "map_of (map (map_prod id serialize) ps) ''toJSON'' = None
      \<or> (\<exists>r. map_of (map (map_prod id serialize) ps) ''toJSON'' = Some r \<and> \<not> callable r)"
    by (cases "map_of ps ''toJSON''")
       (auto simp add: map_of_map_values callable_serialize)
  with m show ?case
    by (auto simp add: stringify_def object_serials_def Let_def)
next
  case (7 a vs)
  have "\<forall>v \<in> set vs. \<forall>n. as_property (serialize v) n = Inr (json_of v, n)"
  proof (intro ballI allI)
    fix v n assume m: "v \<in> set vs"
    from "7.prems" m have "no_toJSON v" by (auto simp add: list_all_iff)
    from "7.IH" [OF m this, of n]
    show "as_property (serialize v) n = Inr (json_of v, n)"
      by (simp add: stringify_def)
  qed
  from elements_no_toJSON [OF this] show ?case
    by (simp add: stringify_def array_serials_def Let_def)
qed (simp_all add: stringify_def plain_serials_def function_serials_def)

lemma json_value_no_toJSON: "json_value v \<Longrightarrow> no_toJSON v"
proof (induction v rule: json_of.induct)
  case (6 a ps)
  have "\<not> is_function (get_prop (VObj a ps) ''toJSON'')"
  proof (cases "map_of ps ''toJSON''")
    case None
    then show ?thesis by simp
  next
    case (Some x)
    then have "(''toJSON'', x) \<in> set ps" by (rule map_of_SomeD)
    with "6.prems" have "json_value x" by (auto simp add: list_all_iff)
    with Some show ?thesis by (cases x) simp_all
  qed
  moreover have "list_all (\<lambda>(k, v). no_toJSON v) ps"
    using "6.IH" "6.prems" by (auto simp add: list_all_iff)
  ultimately show ?case by simp
next
  case (7 a vs)
  then show ?case by (auto simp add: list_all_iff)
qed simp_all

lemma json_copy_no_toJSON:
  "no_toJSON (VObj a ps) \<Longrightarrow>
     \<exists>j. json_of (VObj a ps) = Some j \<and> json_copy (VObj a ps) m = Inr (parse j m)"
  by (simp add: json_copy_def stringify_no_toJSON del: no_toJSON.simps)

text \<open>
  Claim C3, amended (the merged factory). When at least two of user, model[name] and
  collections[name] are present, some present source is a factory and the call
  returns, the result is a factory over the merged mapping. When no object of the
  merged mapping has a \<^verbatim>\<open>toJSON\<close> function, every invocation returns the JSON round
  trip of the merged mapping: it has the same JSON, it is structurally equal to the
  merged mapping when that holds JSON values only, every object in it is newly
  allocated, so it shares no object with the merged mapping (whose objects were
  allocated before) nor with the result of any later invocation.
\<close>

theorem merged_factory_returns_fresh_copies:
  assumes "1 < length (conditions name model collections user)"
      and "\<exists>s \<in> set (sources name model collections complexTypes user). truthy s \<and> has_call s"
      and "merge name model collections complexTypes user n = Inr (r, n1)"
  shows "\<exists>merged. merge_all name model collections complexTypes user n = Inr ((True, merged), n1)
           \<and> r = VFun (json_copy merged)
           \<and> (no_toJSON merged \<longrightarrow>
                (\<forall>m. \<exists>v m'. invoke r m = Inr (v, m')
                 \<and> json_of v = json_of merged
                 \<and> (json_value merged \<longrightarrow> erase v = erase merged)
                 \<and> (\<forall>a \<in> addrs v. m \<le> a \<and> a < m')
                 \<and> ((\<forall>a \<in> addrs merged. a < m) \<longrightarrow> addrs v \<inter> addrs merged = {})
                 \<and> (\<forall>k w k'. m' \<le> k \<and> invoke r k = Inr (w, k') \<longrightarrow> addrs v \<inter> addrs w = {})))"
proof -
  from assms(1) assms(3) obtain b merged where
    all: "merge_all name model collections complexTypes user n = Inr ((b, merged), n1)"
    and r: "r = (if b then VFun (json_copy merged) else merged)"
    by (auto simp add: merge_def split: sum.splits prod.splits if_splits)
  from merge_all_Inr [OF all] assms(2) have b: "b" and "\<exists>a ps. merged = VObj a ps"
    by auto
  then obtain a ps where merged: "merged = VObj a ps" by blast
  have "\<exists>v m'. invoke r m = Inr (v, m')
          \<and> json_of v = json_of merged
          \<and> (json_value merged \<longrightarrow> erase v = erase merged)
          \<and> (\<forall>a \<in> addrs v. m \<le> a \<and> a < m')
          \<and> ((\<forall>a \<in> addrs merged. a < m) \<longrightarrow> addrs v \<inter> addrs merged = {})
          \<and> (\<forall>k w k'. m' \<le> k \<and> invoke r k = Inr (w, k') \<longrightarrow> addrs v \<inter> addrs w = {})"
    if clean: "no_toJSON merged" for m
  proof -
    from json_copy_no_toJSON [of a ps] clean merged obtain j where
      j: "json_of merged = Some j" and copy: "\<And>m. json_copy merged m = Inr (parse j m)"
      by (auto simp add: json_copy_def stringify_no_toJSON simp del: no_toJSON.simps)
    have fresh: "\<And>m x. x \<in> addrs (fst (parse j m)) \<Longrightarrow> m \<le> x \<and> x < snd (parse j m)"
      using parse_alloc(1) by blast
    show ?thesis
    proof (intro exI conjI)
      show "invoke r m = Inr (fst (parse j m), snd (parse j m))"
        using r b copy by simp
      show "json_of (fst (parse j m)) = json_of merged"
        using j json_of_parse(1) by simp
      show "json_value merged \<longrightarrow> erase (fst (parse j m)) = erase merged"
        using erase_parse [OF _ j] by simp
      show "\<forall>a \<in> addrs (fst (parse j m)). m \<le> a \<and> a < snd (parse j m)"
        using fresh by blast
      show "(\<forall>a \<in> addrs merged. a < m) \<longrightarrow> addrs (fst (parse j m)) \<inter> addrs merged = {}"
        using fresh [of _ m] by fastforce
      show "\<forall>k w k'. snd (parse j m) \<le> k \<and> invoke r k = Inr (w, k') \<longrightarrow>
              addrs (fst (parse j m)) \<inter> addrs w = {}"
      proof (intro allI impI)
        fix k w k'
        assume h: "snd (parse j m) \<le> k \<and> invoke r k = Inr (w, k')"
        with r b copy have w: "w = fst (parse j k)" by simp
        show "addrs (fst (parse j m)) \<inter> addrs w = {}"
          using fresh [of _ m] fresh [of _ k] h w by fastforce
      qed
    qed
  qed
  with all b r show ?thesis by auto
qed

lemmas json_defs = json_copy_def stringify_def object_serials_def array_serials_def
  function_serials_def plain_serials_def Let_def

lemmas merge_defs = merge_def conditions_def sources_def section_of_def merge_all_def
  merge_if_def merge_source_def spread2_def assign_def object_factory_def

theorem merged_factory_returns_fresh_copies_witness:
  "1 < length (conditions ''state'' (VObj 1 [(''state'', VObj 3 [(''b'', VNum 2)])]) VUndef
         (object_factory [(''a'', VNum 1), (''list'', VArr 2 [VNum 7])]))
   \<and> has_call (object_factory [(''a'', VNum 1), (''list'', VArr 2 [VNum 7])])
   \<and> merge ''state'' (VObj 1 [(''state'', VObj 3 [(''b'', VNum 2)])]) VUndef VUndef
         (object_factory [(''a'', VNum 1), (''list'', VArr 2 [VNum 7])]) 10
       = Inr (VFun (json_copy (VObj 13 [(''a'', VNum 1), (''list'', VArr 2 [VNum 7]), (''b'', VNum 2)])), 14)
   \<and> no_toJSON (VObj 13 [(''a'', VNum 1), (''list'', VArr 2 [VNum 7]), (''b'', VNum 2)])
   \<and> invoke (VFun (json_copy (VObj 13 [(''a'', VNum 1), (''list'', VArr 2 [VNum 7]), (''b'', VNum 2)]))) 20
       = Inr (VObj 20 [(''a'', VNum 1), (''list'', VArr 21 [VNum 7]), (''b'', VNum 2)], 22)
   \<and> erase (VObj 20 [(''a'', VNum 1), (''list'', VArr 21 [VNum 7]), (''b'', VNum 2)])
       = erase (VObj 13 [(''a'', VNum 1), (''list'', VArr 2 [VNum 7]), (''b'', VNum 2)])
   \<and> addrs (VObj 20 [(''a'', VNum 1), (''list'', VArr 21 [VNum 7]), (''b'', VNum 2)])
       \<inter> addrs (VObj 13 [(''a'', VNum 1), (''list'', VArr 2 [VNum 7]), (''b'', VNum 2)]) = {}"
  using merged_factory_returns_fresh_copies
    [of "''state''" "VObj 1 [(''state'', VObj 3 [(''b'', VNum 2)])]" VUndef
        "object_factory [(''a'', VNum 1), (''list'', VArr 2 [VNum 7])]" VUndef 10
        "VFun (json_copy (VObj 13 [(''a'', VNum 1), (''list'', VArr 2 [VNum 7]), (''b'', VNum 2)]))" 14]
  by (simp add: merge_defs json_defs)

text \<open>
  Claim C3 as stated fails where the merged mapping holds a value JSON does not
  represent: with a user factory returning \<^verbatim>\<open>{a: undefined}\<close> and the model section
  \<^verbatim>\<open>{b: 2}\<close>, the merged mapping is \<^verbatim>\<open>{a: undefined, b: 2}\<close> and an invocation of the
  resulting factory returns \<^verbatim>\<open>{b: 2}\<close>, which is not structurally equal to it.
\<close>

theorem merged_factory_copy_drops_undefined_counterexample:
  "merge ''state'' (VObj 1 [(''state'', VObj 2 [(''b'', VNum 2)])]) VUndef VUndef
     (object_factory [(''a'', VUndef)]) 10
   = Inr (VFun (json_copy (VObj 13 [(''a'', VUndef), (''b'', VNum 2)])), 14)
   \<and> invoke (VFun (json_copy (VObj 13 [(''a'', VUndef), (''b'', VNum 2)]))) 20
       = Inr (VObj 20 [(''b'', VNum 2)], 21)
   \<and> erase (VObj 20 [(''b'', VNum 2)]) \<noteq> erase (VObj 13 [(''a'', VUndef), (''b'', VNum 2)])"
  by (simp add: merge_defs json_defs)

text \<open>
  With a \<^verbatim>\<open>toJSON\<close> function in the merged mapping the copy is what that function
  makes of it: for a user factory returning \<^verbatim>\<open>{a: 1, toJSON: () => undefined}\<close> every
  invocation of the merged factory throws a SyntaxError, and for one returning
  \<^verbatim>\<open>{a: 1, toJSON: () => ({z: 9})}\<close> every invocation returns \<^verbatim>\<open>{z: 9}\<close>.
\<close>

lemma merged_factory_toJSON_undefined_example:
  "merge ''state'' (VObj 1 [(''state'', VObj 2 [(''b'', VNum 2)])]) VUndef VUndef
     (object_factory [(''a'', VNum 1), (''toJSON'', VFun (\<lambda>n. Inr (VUndef, n)))]) 10
   = Inr (VFun (json_copy (VObj 13 [(''a'', VNum 1), (''toJSON'', VFun (\<lambda>n. Inr (VUndef, n))),
                                      (''b'', VNum 2)])), 14)
   \<and> invoke (VFun (json_copy (VObj 13 [(''a'', VNum 1), (''toJSON'', VFun (\<lambda>n. Inr (VUndef, n))),
                                         (''b'', VNum 2)]))) 20
       = Inl SyntaxError"
  by (simp add: merge_defs json_defs)

lemma merged_factory_toJSON_object_example:
  "invoke (VFun (json_copy (VObj 13 [(''a'', VNum 1),
       (''toJSON'', object_factory [(''z'', VNum 9)]), (''b'', VNum 2)]))) 20
     = Inr (VObj 21 [(''z'', VNum 9)], 22)"
  by (simp add: merge_defs json_defs)

section \<open>Properties of the store\<close>

lemmas page_defs = checkModule_def preFetch_def destroyed_def mounted_def callback_def
  registerModule_def unregisterModule_def commit_def state_field_def store_mutations_def
  store_actions_def path_of_def run_handler_def validationField_def fetchedField_def
  set_field_def probe_succeeds_def instances_def mark_def

lemmas example_defs = minimal_module_def bare_module_def foreign_module_def empty_store_def

lemma instances_unregisterModule: "instances (unregisterModule n s) n = 0"
  by (auto simp add: instances_def unregisterModule_def AList.delete_eq case_prod_unfold
      filter_empty_conv)

lemma modules_unregisterModule: "modules (unregisterModule n s) = AList.delete n (modules s)"
  by (simp add: unregisterModule_def)

lemma modules_commit: "modules (commit p v s) = modules s"
  by (simp add: commit_def)

lemma calls_commit: "calls (commit p v s) = calls s @ [Commit p v]"
  by (simp add: commit_def)

lemma filter_key_distinct:
  "distinct (map fst xs) \<Longrightarrow> map_of xs k = Some v \<Longrightarrow> filter (\<lambda>(k', h). k' = k) xs = [(k, v)]"
proof (induction xs)
  case Nil
  then show ?case by simp
next
  case (Cons x xs)
  obtain a b where x: "x = (a, b)" by (cases x)
  show ?case
  proof (cases "a = k")
    case True
    with Cons.prems x have "b = v" and "k \<notin> fst ` set xs" by auto
    then have "filter (\<lambda>(k', h). k' = k) xs = []"
      by (force simp add: filter_empty_conv)
    with True x \<open>b = v\<close> show ?thesis by simp
  next
    case False
    with Cons x show ?thesis by simp
  qed
qed

section \<open>Properties of the liveness probe and the hooks\<close>

text \<open>The probe with the callbacks of \<^verbatim>\<open>preFetch\<close> and \<^verbatim>\<open>destroyed\<close>.\<close>

lemma checkModule_unregister:
  "checkModule m name comb (Some (unregisterModule name)) None s =
     (if probe_succeeds m name comb s
      then unregisterModule name (commit (name @ ''/'' @ validationField) (VStr comb) s)
      else if map_of (mutations m) validationField \<noteq> None \<and> map_of (rootState s) name \<noteq> None
              \<and> store_mutations s (name @ ''/'' @ validationField) \<noteq> []
           then commit (name @ ''/'' @ validationField) (VStr comb) s
           else s)"
  by (simp add: checkModule_def probe_succeeds_def callback_def Let_def)

lemma modules_preFetch:
  "modules (fst (snd (preFetch m name comb r p d s))) =
     AList.update name m (modules (checkModule m name comb (Some (unregisterModule name)) None s))"
  by (simp add: preFetch_def Let_def registerModule_def)

lemma rootState_preFetch:
  "map_of (rootState (fst (snd (preFetch m name comb r p d s)))) name = Some (state m)"
  by (simp add: preFetch_def Let_def registerModule_def AList.update_conv')

text \<open>A commit changes the state of a module through the handlers of that module
  only.\<close>

lemma fold_run_handler_lookup:
  "map_of (fold (run_handler v) hs rs) name =
     map_option (fold (\<lambda>h ps. h ps v) (map snd (filter (\<lambda>nh. fst nh = name) hs))) (map_of rs name)"
proof (induction hs arbitrary: rs)
  case Nil
  then show ?case by (simp add: option.map_ident)
next
  case (Cons nh hs)
  obtain n h where nh: "nh = (n, h)" by (cases nh)
  show ?case
  proof (cases "map_of rs n")
    case None
    with Cons.IH [of rs] nh show ?thesis
      by (auto simp add: run_handler_def)
  next
    case (Some ps)
    with Cons.IH [of "AList.update n (h ps v) rs"] nh show ?thesis
      by (auto simp add: run_handler_def AList.update_conv')
  qed
qed

text \<open>Under distinct module names, the handlers of a path that belong to a module are
  those of its own definition.\<close>

lemma handlers_of_absent_module:
  "name \<notin> fst ` set ms \<Longrightarrow>
     filter (\<lambda>nh. fst nh = name)
       (concat (map (\<lambda>(n, m). map (\<lambda>(k, h). (n, h))
                       (filter (\<lambda>(k, h). path_of n m k = path) (mutations m))) ms)) = []"
  by (induction ms) (auto simp add: filter_empty_conv)

lemma handlers_of_module:
  assumes "distinct (map fst ms)" and "map_of ms name = Some m"
  shows "filter (\<lambda>nh. fst nh = name)
       (concat (map (\<lambda>(n, m). map (\<lambda>(k, h). (n, h))
                       (filter (\<lambda>(k, h). path_of n m k = path) (mutations m))) ms))
     = map (\<lambda>(k, h). (name, h)) (filter (\<lambda>(k, h). path_of name m k = path) (mutations m))"
  using assms
proof (induction ms)
  case Nil
  then show ?case by simp
next
  case (Cons x ms)
  obtain n m' where x: "x = (n, m')" by (cases x)
  show ?case
  proof (cases "n = name")
    case True
    with Cons.prems x have m': "m' = m" and absent: "name \<notin> fst ` set ms" by auto
    have "filter (\<lambda>nh. fst nh = name)
            (map (\<lambda>(k, h). (name, h)) (filter (\<lambda>(k, h). path_of name m k = path) (mutations m)))
          = map (\<lambda>(k, h). (name, h)) (filter (\<lambda>(k, h). path_of name m k = path) (mutations m))"
      by (auto simp add: filter_id_conv)
    with handlers_of_absent_module [OF absent, of path] True x m' show ?thesis by simp
  next
    case False
    have "filter (\<lambda>nh. fst nh = name)
            (map (\<lambda>(k, h). (n, h)) (filter (\<lambda>(k, h). path_of n m' k = path) (mutations m'))) = []"
      using False by (auto simp add: filter_empty_conv)
    with Cons False x show ?thesis by simp
  qed
qed

text \<open>A namespaced module whose validation mutation is the generated one passes the
  probe whenever it is the module registered under the name.\<close>

lemma probe_on_registered:
  assumes "distinct (map fst (modules s))" and "map_of (modules s) name = Some m"
      and "map_of (rootState s) name = Some ps"
      and "namespaced m" and "distinct (map fst (mutations m))"
      and "map_of (mutations m) validationField = Some (set_field validationField)"
  shows "probe_succeeds m name comb s"
proof -
  let ?path = "name @ ''/'' @ validationField"
  have own: "filter (\<lambda>nh. fst nh = name) (store_mutations s ?path)
               = [(name, set_field validationField)]"
    using handlers_of_module [OF assms(1) assms(2), of ?path]
      filter_key_distinct [OF assms(5) assms(6)] assms(4)
    by (simp add: store_mutations_def path_of_def)
  then have nonempty: "store_mutations s ?path \<noteq> []" by auto
  have "map_of (rootState (commit ?path (VStr comb) s)) name
          = Some (set_field validationField ps (VStr comb))"
    using fold_run_handler_lookup [of "VStr comb" "store_mutations s ?path" "rootState s" name]
      own assms(3)
    by (simp add: commit_def)
  then have "state_field (commit ?path (VStr comb) s) name validationField = VStr comb"
    by (simp add: state_field_def set_field_def AList.update_conv')
  with assms(3) assms(6) nonempty show ?thesis
    by (simp add: probe_succeeds_def)
qed

text \<open>Registering under a name leaves one instance under it.\<close>

lemma filter_update_distinct:
  "distinct (map fst xs) \<Longrightarrow> length (filter (\<lambda>p. fst p = k) (AList.update k v xs)) = 1"
proof (induction xs)
  case Nil
  then show ?case by simp
next
  case (Cons x xs)
  show ?case
  proof (cases "fst x = k")
    case True
    with Cons.prems have "k \<notin> fst ` set xs" by auto
    then have "filter (\<lambda>p. fst p = k) xs = []"
      by (auto simp add: filter_empty_conv)
    with True show ?thesis by (cases x) simp
  next
    case False
    with Cons show ?thesis by (cases x) simp
  qed
qed

lemma distinct_modules_checkModule:
  "distinct (map fst (modules s)) \<Longrightarrow>
     distinct (map fst (modules (checkModule m name comb (Some (unregisterModule name)) None s)))"
  by (simp add: checkModule_unregister modules_unregisterModule modules_commit
      AList.distinct_delete)

lemma instances_preFetch:
  "distinct (map fst (modules s)) \<Longrightarrow> instances (fst (snd (preFetch m name comb r p d s))) name = 1"
  using distinct_modules_checkModule [of s m name comb]
  by (simp add: instances_def modules_preFetch filter_update_distinct)

lemma distinct_modules_preFetch:
  "distinct (map fst (modules s)) \<Longrightarrow>
     distinct (map fst (modules (fst (snd (preFetch m name comb r p d s)))))"
  using distinct_modules_checkModule [of s m name comb]
  by (simp add: modules_preFetch AList.distinct_update)

lemma map_of_modules_preFetch:
  "map_of (modules (fst (snd (preFetch m name comb r p d s)))) name = Some m"
  by (simp add: modules_preFetch AList.update_conv')

text \<open>
  Claim C4, amended (the liveness probe). When the page's own module definition has
  the validation mutation: if a module is registered under the name and a handler
  exists under the namespaced validation path, the probe commits the token through
  that path, reads the validation field back, and invokes the success callback if the
  value read is the token and the failure callback otherwise; if the module is absent
  or the handler is missing, it commits nothing and invokes the failure callback.
\<close>

theorem checkModule_probe:
  assumes "map_of (mutations storeModule) validationField \<noteq> None"
  shows "checkModule storeModule moduleName comb (Some success) (Some failure) store =
     (if map_of (rootState store) moduleName \<noteq> None
         \<and> store_mutations store (moduleName @ ''/'' @ validationField) \<noteq> []
      then (if strict_eq_string
                 (state_field (commit (moduleName @ ''/'' @ validationField) (VStr comb) store)
                    moduleName validationField) comb
            then success (commit (moduleName @ ''/'' @ validationField) (VStr comb) store)
            else failure (commit (moduleName @ ''/'' @ validationField) (VStr comb) store))
      else failure store)"
  using assms by (simp add: checkModule_def callback_def Let_def)

theorem checkModule_probe_witness:
  "map_of (mutations minimal_module) validationField \<noteq> None
   \<and> calls (checkModule minimal_module ''jobs'' ''t1'' (Some (mark ''success'')) (Some (mark ''failure''))
        (registerModule ''jobs'' minimal_module empty_store))
     = [Register ''jobs'', Commit ''jobs/@@'' (VStr ''t1''), Called ''success'']
   \<and> calls (checkModule minimal_module ''jobs'' ''t1'' (Some (mark ''success'')) (Some (mark ''failure''))
        (registerModule ''jobs'' foreign_module empty_store))
     = [Register ''jobs'', Commit ''jobs/@@'' (VStr ''t1''), Called ''failure'']
   \<and> calls (checkModule minimal_module ''jobs'' ''t1'' (Some (mark ''success'')) (Some (mark ''failure''))
        empty_store)
     = [Called ''failure'']"
  using checkModule_probe [of minimal_module "''jobs''" "''t1''" "mark ''success''" "mark ''failure''"
      "registerModule ''jobs'' minimal_module empty_store"]
    checkModule_probe [of minimal_module "''jobs''" "''t1''" "mark ''success''" "mark ''failure''"
      "registerModule ''jobs'' foreign_module empty_store"]
    checkModule_probe [of minimal_module "''jobs''" "''t1''" "mark ''success''" "mark ''failure''"
      empty_store]
  by (simp add: page_defs example_defs)

text \<open>
  Claim C4 as stated fails when the page's module definition has no validation
  mutation: the module is absent from the empty store, a failure callback is passed,
  and no callback is invoked.
\<close>

theorem checkModule_no_callback_counterexample:
  "calls (checkModule bare_module ''jobs'' ''t1'' (Some (mark ''success'')) (Some (mark ''failure''))
      empty_store) = []"
  by (simp add: page_defs example_defs)

text \<open>
  Claim C5, amended (mount on probe success). When the probe of \<^verbatim>\<open>page.preFetch\<close>
  succeeds, the hook commits the token, unregisters the module registered under the
  name and registers the page's module definition under it again: the instance found
  is replaced, not reused.
\<close>

theorem preFetch_reregisters_on_probe_success:
  assumes "probe_succeeds storeModule moduleName comb store"
  shows "(\<exists>evs. calls (fst (snd (preFetch storeModule moduleName comb currentRoute previousRoute redirect store)))
            = calls store @ [Commit (moduleName @ ''/'' @ validationField) (VStr comb),
                             Unregister moduleName, Register moduleName] @ evs)
    \<and> modules (fst (snd (preFetch storeModule moduleName comb currentRoute previousRoute redirect store)))
        = AList.update moduleName storeModule (AList.delete moduleName (modules store))"
  using assms
  by (auto simp add: preFetch_def checkModule_def probe_succeeds_def Let_def callback_def
        registerModule_def unregisterModule_def calls_commit modules_commit)

theorem preFetch_reregisters_on_probe_success_witness:
  "probe_succeeds minimal_module ''jobs'' ''t2''
     (commit ''jobs/@tmu_fetch'' (VBool True) (registerModule ''jobs'' minimal_module empty_store))
   \<and> modules (fst (snd (preFetch minimal_module ''jobs'' ''t2'' VNull VNull VNull
        (commit ''jobs/@tmu_fetch'' (VBool True) (registerModule ''jobs'' minimal_module empty_store)))))
      = [(''jobs'', minimal_module)]"
  using preFetch_reregisters_on_probe_success [of minimal_module "''jobs''" "''t2''"
      "commit ''jobs/@tmu_fetch'' (VBool True) (registerModule ''jobs'' minimal_module empty_store)"
      VNull VNull VNull]
  by (simp add: page_defs example_defs)

text \<open>
  Claim C5 as stated fails: on a store where the module is registered and live, the
  probe of \<^verbatim>\<open>page.preFetch\<close> succeeds and the hook calls \<^verbatim>\<open>unregisterModule\<close> and
  \<^verbatim>\<open>registerModule\<close> under the name.
\<close>

theorem preFetch_reregisters_counterexample:
  "probe_succeeds minimal_module ''jobs'' ''t2'' (registerModule ''jobs'' minimal_module empty_store)
   \<and> calls (fst (snd (preFetch minimal_module ''jobs'' ''t2'' VNull VNull VNull
        (registerModule ''jobs'' minimal_module empty_store))))
     = [Register ''jobs'', Commit ''jobs/@@'' (VStr ''t2''), Unregister ''jobs'', Register ''jobs'',
        Dispatch ''jobs/initialize'' [(''route'', VNull), (''from'', VNull), (''next'', VNull)]]"
  by (simp add: page_defs example_defs)

text \<open>
  Claim C6, amended (rejection of initialize). \<^verbatim>\<open>page.preFetch\<close> does not return the
  promise chain it builds on the dispatch: it returns undefined (or throws a
  TypeError) before the dispatch settles, so a rejection of \<^verbatim>\<open>initialize\<close> does not
  reach the caller of the hook. On a rejection both callbacks of the chain are
  skipped: the store is left as it is, no commit of the fetch flag is made, and the
  chain settles as rejected with the same reason. The flag the registration leaves is
  the value of the field in the state the module definition supplies (false in the
  state \<^verbatim>\<open>store\<close> builds).
\<close>

theorem preFetch_rejection_not_returned:
  "(fst (preFetch storeModule moduleName comb currentRoute previousRoute redirect store) = Return VUndef
     \<or> fst (preFetch storeModule moduleName comb currentRoute previousRoute redirect store) = Throw TypeError)
   \<and> preFetch_settled moduleName user_preFetch fetched (Rejected e) store1 = (Rejected e, store1)
   \<and> state_field (fst (snd (preFetch storeModule moduleName comb currentRoute previousRoute redirect store)))
        moduleName fetchedField
      = (case map_of (state storeModule) fetchedField of Some v \<Rightarrow> v | None \<Rightarrow> VUndef)"
  by (simp add: preFetch_def Let_def preFetch_settled_def preFetch_then1_def preFetch_then2_def
        state_field_def registerModule_def AList.update_conv')

theorem preFetch_rejection_not_returned_witness:
  "fst (preFetch minimal_module ''jobs'' ''t1'' VNull VNull VNull empty_store) = Return VUndef
   \<and> preFetch_settled ''jobs'' None (VBool False) (Rejected (VStr ''boom''))
        (fst (snd (preFetch minimal_module ''jobs'' ''t1'' VNull VNull VNull empty_store)))
      = (Rejected (VStr ''boom''),
         fst (snd (preFetch minimal_module ''jobs'' ''t1'' VNull VNull VNull empty_store)))
   \<and> state_field (fst (snd (preFetch minimal_module ''jobs'' ''t1'' VNull VNull VNull empty_store)))
        ''jobs'' fetchedField = VBool False"
  using preFetch_rejection_not_returned
    [of minimal_module "''jobs''" "''t1''" VNull VNull VNull empty_store None "VBool False"
        "VStr ''boom''" "fst (snd (preFetch minimal_module ''jobs'' ''t1'' VNull VNull VNull empty_store))"]
  by (simp add: page_defs example_defs)

text \<open>
  Claim C6 as stated fails in its first part: the hook called on the empty store for
  the minimal module returns undefined, while the chain on the dispatch, when
  \<^verbatim>\<open>initialize\<close> rejects with \<^verbatim>\<open>boom\<close>, settles as rejected with \<^verbatim>\<open>boom\<close>; the caller
  of the hook holds no promise and receives no rejection.
\<close>

theorem preFetch_returns_undefined_counterexample:
  "fst (preFetch minimal_module ''jobs'' ''t1'' VNull VNull VNull empty_store) = Return VUndef
   \<and> fst (preFetch_settled ''jobs'' None
        (snd (snd (preFetch minimal_module ''jobs'' ''t1'' VNull VNull VNull empty_store)))
        (Rejected (VStr ''boom''))
        (fst (snd (preFetch minimal_module ''jobs'' ''t1'' VNull VNull VNull empty_store))))
      = Rejected (VStr ''boom'')"
  by (simp add: page_defs example_defs preFetch_settled_def preFetch_then1_def preFetch_then2_def)

text \<open>The hooks that run after a mount, without hooks of the page's own, leave the
  registry as it is.\<close>

lemma modules_mounted: "modules (mounted name None s) = modules s"
  by (simp add: mounted_def callback_def modules_commit)

lemma modules_preFetch_settled: "modules (snd (preFetch_settled name None f out s)) = modules s"
  by (simp add: preFetch_settled_def preFetch_then1_def preFetch_then2_def modules_commit
      split: settled.splits val.splits)

text \<open>
  Claim C7, amended (overlapping mounts). On every store whose registered names are
  distinct, for every module definition: a mount leaves exactly one instance
  registered under the name, and when it finds a live instance it unregisters it
  before it registers, so there are never two. When a view unmounts after the mount
  of another view under the same name, its probe runs on the instance that mount
  registered: if the probe succeeds the instance is unregistered and none is left
  although the other view is mounted, and otherwise one is left; the probe does
  succeed whenever the page's module is namespaced and its validation mutation is the
  generated one. When the view unmounts before the other mounts, one instance is
  registered. The \<^verbatim>\<open>mounted\<close> hook and the callbacks that run when \<^verbatim>\<open>initialize\<close>
  settles do not change the number.
\<close>

theorem overlapping_mounts_registry:
  assumes "distinct (map fst (modules store))"
  shows "(let s2 = fst (snd (preFetch storeModule moduleName t2 r2 p2 d2 store));
              s3 = destroyed storeModule moduleName None t3 s2
          in (probe_succeeds storeModule moduleName t2 store \<longrightarrow>
                (\<exists>evs. calls s2 = calls store @ [Commit (moduleName @ ''/'' @ validationField) (VStr t2),
                                                  Unregister moduleName, Register moduleName] @ evs))
             \<and> instances s2 moduleName = 1
             \<and> instances s3 moduleName = (if probe_succeeds storeModule moduleName t3 s2 then 0 else 1)
             \<and> (namespaced storeModule \<and> distinct (map fst (mutations storeModule))
                  \<and> map_of (mutations storeModule) validationField = Some (set_field validationField)
                \<longrightarrow> probe_succeeds storeModule moduleName t3 s2))
     \<and> (let s1 = destroyed storeModule moduleName None t3 store;
              s2 = fst (snd (preFetch storeModule moduleName t2 r2 p2 d2 s1))
          in instances s2 moduleName = 1)
     \<and> (\<forall>s. instances (mounted moduleName None s) moduleName = instances s moduleName)
     \<and> (\<forall>f out s. instances (snd (preFetch_settled moduleName None f out s)) moduleName
                     = instances s moduleName)"
proof -
  define s2 where "s2 = fst (snd (preFetch storeModule moduleName t2 r2 p2 d2 store))"
  define s3 where "s3 = destroyed storeModule moduleName None t3 s2"
  define s1 where "s1 = destroyed storeModule moduleName None t3 store"
  have trace: "probe_succeeds storeModule moduleName t2 store \<longrightarrow>
      (\<exists>evs. calls s2 = calls store @ [Commit (moduleName @ ''/'' @ validationField) (VStr t2),
                                        Unregister moduleName, Register moduleName] @ evs)"
    by (auto simp add: s2_def preFetch_def checkModule_def probe_succeeds_def Let_def callback_def
        registerModule_def unregisterModule_def calls_commit)
  have one: "instances s2 moduleName = 1"
    using assms by (simp add: s2_def instances_preFetch)
  have d2: "distinct (map fst (modules s2))"
    using assms by (simp add: s2_def distinct_modules_preFetch)
  have s3: "s3 = checkModule storeModule moduleName t3 (Some (unregisterModule moduleName)) None s2"
    by (simp add: s3_def destroyed_def callback_def)
  have after: "instances s3 moduleName = (if probe_succeeds storeModule moduleName t3 s2 then 0 else 1)"
  proof (cases "probe_succeeds storeModule moduleName t3 s2")
    case True
    then show ?thesis
      by (simp add: s3 checkModule_unregister instances_unregisterModule)
  next
    case False
    then have "modules s3 = modules s2"
      by (simp add: s3 checkModule_unregister modules_commit)
    with one False show ?thesis by (simp add: instances_def)
  qed
  have live: "namespaced storeModule \<and> distinct (map fst (mutations storeModule))
                \<and> map_of (mutations storeModule) validationField = Some (set_field validationField)
              \<longrightarrow> probe_succeeds storeModule moduleName t3 s2"
  proof (intro impI, elim conjE)
    assume wf: "namespaced storeModule" "distinct (map fst (mutations storeModule))"
      "map_of (mutations storeModule) validationField = Some (set_field validationField)"
    have reg: "map_of (modules s2) moduleName = Some storeModule"
      by (simp add: s2_def map_of_modules_preFetch)
    have st: "map_of (rootState s2) moduleName = Some (state storeModule)"
      by (simp add: s2_def rootState_preFetch)
    show "probe_succeeds storeModule moduleName t3 s2"
      using probe_on_registered [OF d2 reg st wf] .
  qed
  have "distinct (map fst (modules s1))"
    using assms by (simp add: s1_def destroyed_def callback_def distinct_modules_checkModule)
  then have other: "instances (fst (snd (preFetch storeModule moduleName t2 r2 p2 d2 s1))) moduleName = 1"
    by (rule instances_preFetch)
  from trace one after live other show ?thesis
    by (simp add: Let_def s1_def s2_def s3_def instances_def modules_mounted
        modules_preFetch_settled)
qed

theorem overlapping_mounts_registry_witness:
  "distinct (map fst (modules (registerModule ''jobs'' minimal_module empty_store)))
   \<and> probe_succeeds minimal_module ''jobs'' ''t2'' (registerModule ''jobs'' minimal_module empty_store)
   \<and> namespaced minimal_module \<and> distinct (map fst (mutations minimal_module))
   \<and> map_of (mutations minimal_module) validationField = Some (set_field validationField)
   \<and> instances (fst (snd (preFetch minimal_module ''jobs'' ''t2'' VNull VNull VNull
        (registerModule ''jobs'' minimal_module empty_store)))) ''jobs'' = 1
   \<and> instances (destroyed minimal_module ''jobs'' None ''t3''
        (fst (snd (preFetch minimal_module ''jobs'' ''t2'' VNull VNull VNull
           (registerModule ''jobs'' minimal_module empty_store))))) ''jobs'' = 0
   \<and> instances (fst (snd (preFetch minimal_module ''jobs'' ''t2'' VNull VNull VNull
        (destroyed minimal_module ''jobs'' None ''t3''
           (registerModule ''jobs'' minimal_module empty_store))))) ''jobs'' = 1"
proof -
  have pre: "distinct (map fst (modules (registerModule ''jobs'' minimal_module empty_store)))"
    by (simp add: page_defs example_defs)
  have wf: "namespaced minimal_module" "distinct (map fst (mutations minimal_module))"
    "map_of (mutations minimal_module) validationField = Some (set_field validationField)"
    by (simp_all add: example_defs validationField_def fetchedField_def)
  have live: "probe_succeeds minimal_module ''jobs'' ''t2''
      (registerModule ''jobs'' minimal_module empty_store)"
    by (simp add: page_defs example_defs)
  note t = overlapping_mounts_registry [OF pre, of minimal_module "''jobs''" "''t2''" VNull VNull VNull "''t3''"]
  from t wf have
    "instances (fst (snd (preFetch minimal_module ''jobs'' ''t2'' VNull VNull VNull
        (registerModule ''jobs'' minimal_module empty_store)))) ''jobs'' = 1"
    and "instances (destroyed minimal_module ''jobs'' None ''t3''
        (fst (snd (preFetch minimal_module ''jobs'' ''t2'' VNull VNull VNull
           (registerModule ''jobs'' minimal_module empty_store))))) ''jobs'' = 0"
    and "instances (fst (snd (preFetch minimal_module ''jobs'' ''t2'' VNull VNull VNull
        (destroyed minimal_module ''jobs'' None ''t3''
           (registerModule ''jobs'' minimal_module empty_store))))) ''jobs'' = 1"
    by (simp_all add: Let_def)
  with pre wf live show ?thesis by simp
qed

text \<open>
  Claim C7 as stated fails: two mounts of the minimal module under the name
  \<^verbatim>\<open>jobs\<close>, then the unmount of the first view, leave no module registered under the
  name.
\<close>

theorem overlapping_mounts_unregistered_counterexample:
  "instances
     (destroyed minimal_module ''jobs'' None ''t3''
        (fst (snd (preFetch minimal_module ''jobs'' ''t2'' VNull VNull VNull
           (fst (snd (preFetch minimal_module ''jobs'' ''t1'' VNull VNull VNull empty_store)))))))
     ''jobs'' = 0"
  by (simp add: page_defs example_defs Let_def)

text \<open>
  Claim C8 (unmount). \<^verbatim>\<open>page.destroyed\<close> runs the page's own hook, then the probe: if
  the probe succeeds the module is unregistered (no instance is left under the name);
  if it does not, the registry is as the page's own hook left it and no
  \<^verbatim>\<open>unregisterModule\<close> call is made.
\<close>

theorem destroyed_unregisters_on_probe_success:
  "(probe_succeeds storeModule moduleName comb (callback user_destroyed store) \<longrightarrow>
      destroyed storeModule moduleName user_destroyed comb store
        = unregisterModule moduleName
            (commit (moduleName @ ''/'' @ validationField) (VStr comb) (callback user_destroyed store))
      \<and> instances (destroyed storeModule moduleName user_destroyed comb store) moduleName = 0)
   \<and> (\<not> probe_succeeds storeModule moduleName comb (callback user_destroyed store) \<longrightarrow>
      modules (destroyed storeModule moduleName user_destroyed comb store)
        = modules (callback user_destroyed store)
      \<and> (\<forall>n. Unregister n \<notin> set (drop (length (calls (callback user_destroyed store)))
                (calls (destroyed storeModule moduleName user_destroyed comb store)))))"
  by (auto simp add: destroyed_def checkModule_def probe_succeeds_def Let_def
       instances_unregisterModule modules_commit calls_commit callback_def split: option.splits)

theorem destroyed_unregisters_on_probe_success_witness:
  "probe_succeeds minimal_module ''jobs'' ''t3'' (registerModule ''jobs'' minimal_module empty_store)
   \<and> modules (destroyed minimal_module ''jobs'' None ''t3''
        (registerModule ''jobs'' minimal_module empty_store)) = []
   \<and> \<not> probe_succeeds minimal_module ''jobs'' ''t3'' (registerModule ''jobs'' foreign_module empty_store)
   \<and> modules (destroyed minimal_module ''jobs'' None ''t3''
        (registerModule ''jobs'' foreign_module empty_store)) = [(''jobs'', foreign_module)]"
  using destroyed_unregisters_on_probe_success
      [of minimal_module "''jobs''" "''t3''" None "registerModule ''jobs'' minimal_module empty_store"]
    destroyed_unregisters_on_probe_success
      [of minimal_module "''jobs''" "''t3''" None "registerModule ''jobs'' foreign_module empty_store"]
  by (simp add: page_defs example_defs)

text \<open>
  Claim C10 (no validation mutation). When the module definition passed to the page
  has no mutation named \<^verbatim>\<open>@@\<close>, \<^verbatim>\<open>checkModule\<close> invokes neither callback and leaves
  the store as it is; \<^verbatim>\<open>page.destroyed\<close> does nothing beyond the page's own hook, so it
  makes no \<^verbatim>\<open>unregisterModule\<close> call and leaves the registry unchanged; and
  \<^verbatim>\<open>page.preFetch\<close> goes straight to the registration, with no \<^verbatim>\<open>unregisterModule\<close>
  call before or after it.
\<close>

theorem no_validation_mutation_no_callback:
  assumes "map_of (mutations storeModule) validationField = None"
  shows "checkModule storeModule moduleName comb success failure store = store
    \<and> destroyed storeModule moduleName user_destroyed comb store = callback user_destroyed store
    \<and> (\<exists>evs. calls (fst (snd (preFetch storeModule moduleName comb currentRoute previousRoute redirect store)))
            = calls store @ Register moduleName # evs
          \<and> (\<forall>n. Unregister n \<notin> set evs))
    \<and> modules (fst (snd (preFetch storeModule moduleName comb currentRoute previousRoute redirect store)))
         = AList.update moduleName storeModule (modules store)"
  using assms by (simp add: checkModule_def destroyed_def preFetch_def Let_def registerModule_def)

theorem no_validation_mutation_no_callback_witness:
  "map_of (mutations bare_module) validationField = None
   \<and> calls (checkModule bare_module ''jobs'' ''t1'' (Some (mark ''success'')) (Some (mark ''failure''))
        (registerModule ''jobs'' minimal_module empty_store)) = [Register ''jobs'']
   \<and> destroyed bare_module ''jobs'' None ''t1'' (registerModule ''jobs'' minimal_module empty_store)
       = registerModule ''jobs'' minimal_module empty_store
   \<and> modules (fst (snd (preFetch bare_module ''jobs'' ''t1'' VNull VNull VNull
         (registerModule ''jobs'' minimal_module empty_store)))) = [(''jobs'', bare_module)]"
  using no_validation_mutation_no_callback
    [of bare_module "''jobs''" "''t1''" "Some (mark ''success'')" "Some (mark ''failure'')"
        "registerModule ''jobs'' minimal_module empty_store" None VNull VNull VNull]
  by (simp add: page_defs example_defs)

section \<open>Properties of the action names\<close>

text \<open>The article of a name is \<^verbatim>\<open>An\<close> exactly when the PascalCase singular starts with
  a vowel, in either case.\<close>

lemma actionName_article:
  "actionName pascal property single_name
     = ''set'' @ pascal property @ ''Of''
       @ (if \<exists>ch rest. pascal single_name = ch # rest \<and> ch \<in> set ''aeiouAEIOU'' then ''An'' else ''A'')
       @ pascal single_name"
  by (cases "pascal single_name") (simp_all add: actionName_def starts_with_vowel_def)

lemma actionName_examples:
  "actionName capitalize ''size'' ''apple'' = ''setSizeOfAnApple''
   \<and> actionName capitalize ''size'' ''job'' = ''setSizeOfAJob''"
  by (simp add: actionName_def starts_with_vowel_def capitalize_def upper_def)

text \<open>Where the global scope binds \<^verbatim>\<open>computed\<close>, the block ends and has named an action
  for every property of every typed collection.\<close>

lemma collection_loop_bound:
  "\<exists>gets acts.
     collection_loop pascal camel defaultPrefixes True cs acc = Inr (gets, acts)
     \<and> set (snd acc) \<subseteq> set acts
     \<and> (\<forall>c \<in> set cs. \<forall>properties. type_keys c = Some properties \<longrightarrow>
          (\<forall>property \<in> set properties. actionName pascal property (single c) \<in> set acts))"
proof (induction cs arbitrary: acc)
  case Nil
  then show ?case by (cases acc) simp
next
  case (Cons c cs)
  obtain gs as where acc: "acc = (gs, as)" by (cases acc)
  obtain gs1 as1 where turn: "collection_turn pascal camel defaultPrefixes True c acc = Inr (gs1, as1)"
    and keep: "set as \<subseteq> set as1"
    and named: "\<forall>properties. type_keys c = Some properties \<longrightarrow>
          (\<forall>property \<in> set properties. actionName pascal property (single c) \<in> set as1)"
    by (cases "type_keys c") (auto simp add: collection_turn_def acc Let_def)
  from Cons.IH [of "(gs1, as1)"] obtain gets acts where
    loop: "collection_loop pascal camel defaultPrefixes True cs (gs1, as1) = Inr (gets, acts)"
    and sub: "set as1 \<subseteq> set acts"
    and rest: "\<forall>c \<in> set cs. \<forall>properties. type_keys c = Some properties \<longrightarrow>
          (\<forall>property \<in> set properties. actionName pascal property (single c) \<in> set acts)"
    by auto
  from turn loop have "collection_loop pascal camel defaultPrefixes True (c # cs) acc
      = Inr (gets, acts)"
    by simp
  moreover from keep sub acc have "set (snd acc) \<subseteq> set acts" by auto
  moreover from named sub rest have
    "\<forall>c' \<in> set (c # cs). \<forall>properties. type_keys c' = Some properties \<longrightarrow>
          (\<forall>property \<in> set properties. actionName pascal property (single c') \<in> set acts)"
    by auto
  ultimately show ?case by blast
qed

text \<open>Where it does not, the block throws in the first turn of its loop.\<close>

lemma setup_collections_unbound:
  "collections \<noteq> [] \<Longrightarrow>
     setup_collections pascal camel defaultPrefixes False collections = Inl ReferenceError"
  by (cases collections) (simp_all add: setup_collections_def collection_turn_def Let_def)

text \<open>
  Claim C9 (names of the per-property actions), at the collection \<^verbatim>\<open>apple\<close> with the
  properties \<^verbatim>\<open>size\<close> and \<^verbatim>\<open>color\<close>, in a global scope that does not bind
  \<^verbatim>\<open>computed\<close>: the block throws a ReferenceError at the first \<^verbatim>\<open>computed(...)\<close> call,
  before the loop over the properties, and names no action.
\<close>

theorem setup_collections_throws_before_naming:
  "setup_collections capitalize same_word (''saveOrUpdate'', ''delete'') False [apple]
     = Inl ReferenceError"
  by (simp add: setup_collections_def collection_turn_def Let_def)

end
